theory Spec2Isabelle
  imports Complex_Main "HOL-Library.Sublist"
begin

section \<open>Drone navigation simulation: data model\<close>

text \<open>
  A shallow embedding of \<^verbatim>\<open>drone_simulation.py\<close>. Python numbers that hold
  coordinates, distances, the battery level and times are modelled as reals (exact
  arithmetic); counters and indices are Python ints and are modelled as \<open>int\<close>.
  Exceptions are values: a function that can raise returns \<open>error + 'a\<close>.
  Drawing code, fonts, colours of the user interface and the pygame window are not
  part of the model.
\<close>

datatype error = ZeroDivisionError | IndexError

text \<open>What a Python call hands back: \<^verbatim>\<open>None\<close> or a boolean.\<close>

datatype pyval = PyNone | PyBool bool

type_synonym point = "real \<times> real"

text \<open>
  \<^verbatim>\<open>pygame.Rect(x, y, width, height)\<close> stores four integers. Its attributes
  \<^verbatim>\<open>left\<close>, \<^verbatim>\<open>top\<close>, \<^verbatim>\<open>right\<close> and \<^verbatim>\<open>bottom\<close> are
  \<open>x\<close>, \<open>y\<close>, \<open>x + w\<close> and \<open>y + h\<close>.
\<close>

record Rect =
  rx :: int
  ry :: int
  rw :: int
  rh :: int

definition rect_left :: "Rect \<Rightarrow> int" where
  "rect_left r = rx r"

definition rect_top :: "Rect \<Rightarrow> int" where
  "rect_top r = ry r"

definition rect_right :: "Rect \<Rightarrow> int" where
  "rect_right r = rx r + rw r"

definition rect_bottom :: "Rect \<Rightarrow> int" where
  "rect_bottom r = ry r + rh r"

text \<open>
  \<^verbatim>\<open>class Building\<close>: the rectangle, and the colour and the visual height drawn at
  random by the constructor.
\<close>

record Building =
  rect :: Rect
  color :: "int \<times> int \<times> int"
  height :: int

text \<open>\<^verbatim>\<open>class NoFlyZone\<close>: \<^verbatim>\<open>self.center = (center_x, center_y)\<close>, \<^verbatim>\<open>self.radius\<close>.\<close>

record NoFlyZone =
  center :: point
  radius :: real

text \<open>
  \<^verbatim>\<open>class Drone\<close>. The fields \<open>pos_x\<close>, \<open>pos_y\<close> are \<^verbatim>\<open>self.x\<close>, \<^verbatim>\<open>self.y\<close>
  and \<open>size_px\<close> is \<^verbatim>\<open>self.size\<close>.
\<close>

record Drone =
  pos_x :: real
  pos_y :: real
  target_x :: real
  target_y :: real
  speed :: real
  size_px :: int
  path :: "point list"
  clipped_path :: "point list"
  is_moving :: bool
  battery :: real
  carrying_package :: bool

text \<open>\<^verbatim>\<open>@dataclass class NavigationMetrics\<close>.\<close>

record NavigationMetrics =
  paths_planned :: int
  obstacles_avoided :: int
  paths_clipped :: int
  total_processing_time :: real
  successful_deliveries :: int

text \<open>\<^verbatim>\<open>class UrbanEnvironment\<close>, without the screen, the clock and the fonts.\<close>

record UrbanEnvironment =
  buildings :: "Building list"
  no_fly_zones :: "NoFlyZone list"
  delivery_points :: "point list"
  drone :: Drone
  metrics :: NavigationMetrics
  current_delivery :: int
  simulation_time :: real
  is_paused :: bool

section \<open>Library operations the program calls\<close>

text \<open>Python's \<^verbatim>\<open>a / b\<close> on numbers raises \<^verbatim>\<open>ZeroDivisionError\<close> when \<open>b\<close> is zero.\<close>

definition py_truediv :: "real \<Rightarrow> real \<Rightarrow> error + real" where
  "py_truediv a b = (if b = 0 then Inl ZeroDivisionError else Inr (a / b))"

text \<open>Python's \<^verbatim>\<open>xs[i]\<close>: a negative index counts from the end, an index out of range raises.\<close>

definition py_index :: "'a list \<Rightarrow> int \<Rightarrow> error + 'a" where
  "py_index xs i =
     (if 0 \<le> i \<and> i < int (length xs) then Inr (xs ! nat i)
      else if i < 0 \<and> - int (length xs) \<le> i then Inr (xs ! nat (int (length xs) + i))
      else Inl IndexError)"

text \<open>
  \<^verbatim>\<open>pygame.Rect.collidepoint\<close> is code of the pygame library, which the program
  imports; it is modelled here from the library's documented behaviour. The two
  coordinates are converted to C integers (a float is cut towards zero), and the
  point is inside when \<open>left \<le> x < right\<close> and \<open>top \<le> y < bottom\<close>: a point on the
  right or on the bottom edge is outside.
\<close>

definition trunc_int :: "real \<Rightarrow> int" where
  "trunc_int v = (if 0 \<le> v then \<lfloor>v\<rfloor> else \<lceil>v\<rceil>)"

definition collidepoint :: "Rect \<Rightarrow> real \<Rightarrow> real \<Rightarrow> bool" where
  "collidepoint r px py =
     (let xi = trunc_int px; yi = trunc_int py
      in rx r \<le> xi \<and> xi < rx r + rw r \<and> ry r \<le> yi \<and> yi < ry r + rh r)"

section \<open>No-fly zones and the drone\<close>

text \<open>\<^verbatim>\<open>NoFlyZone.contains_point\<close>.\<close>

definition contains_point :: "NoFlyZone \<Rightarrow> real \<Rightarrow> real \<Rightarrow> bool" where
  "contains_point z px py =
     (let distance = sqrt ((px - fst (center z))\<^sup>2 + (py - snd (center z))\<^sup>2)
      in distance \<le> radius z)"

text \<open>\<^verbatim>\<open>Drone.__init__(start_pos)\<close>.\<close>

definition drone_init :: "point \<Rightarrow> Drone" where
  "drone_init start_pos =
     \<lparr> pos_x = fst start_pos, pos_y = snd start_pos,
       target_x = fst start_pos, target_y = snd start_pos,
       speed = 3, size_px = 8, path = [], clipped_path = [],
       is_moving = False, battery = 100, carrying_package = True \<rparr>"

text \<open>\<^verbatim>\<open>Drone.set_target\<close>.\<close>

definition set_target :: "real \<Rightarrow> real \<Rightarrow> Drone \<Rightarrow> Drone" where
  "set_target tx ty d = d\<lparr>target_x := tx, target_y := ty, is_moving := True\<rparr>"

text \<open>
  The trail: \<^verbatim>\<open>self.path.append(p)\<close> followed by
  \<^verbatim>\<open>if len(self.path) > 100: self.path.pop(0)\<close>.
\<close>

definition append_path :: "point \<Rightarrow> point list \<Rightarrow> point list" where
  "append_path p ps =
     (let ps' = ps @ [p] in if length ps' > 100 then tl ps' else ps')"

text \<open>The distance \<^verbatim>\<open>Drone.update\<close> computes from the position to the target.\<close>

definition target_distance :: "Drone \<Rightarrow> real" where
  "target_distance d = sqrt ((target_x d - pos_x d)\<^sup>2 + (target_y d - pos_y d)\<^sup>2)"

text \<open>
  \<^verbatim>\<open>Drone.update\<close>. Both quotients are computed from the values \<open>dx\<close>, \<open>dy\<close>
  and \<open>distance\<close> read at the start of the call.
\<close>

definition update_drone :: "Drone \<Rightarrow> error + Drone" where
  "update_drone d =
     (if \<not> is_moving d then Inr d
      else
        let dx = target_x d - pos_x d;
            dy = target_y d - pos_y d;
            distance = target_distance d
        in if distance > speed d then
             (case py_truediv dx distance of
                Inl err \<Rightarrow> Inl err
              | Inr ux \<Rightarrow>
                 (case py_truediv dy distance of
                    Inl err \<Rightarrow> Inl err
                  | Inr uy \<Rightarrow>
                     let nx = pos_x d + ux * speed d;
                         ny = pos_y d + uy * speed d
                     in Inr (d\<lparr>pos_x := nx, pos_y := ny,
                              path := append_path (nx, ny) (path d),
                              battery := battery d - 1 / 100\<rparr>)))
           else Inr (d\<lparr>pos_x := target_x d, pos_y := target_y d,
                        is_moving := False,
                        carrying_package :=
                          (if carrying_package d then False else carrying_package d)\<rparr>))"

text \<open>
  The two scans of \<^verbatim>\<open>clip_path_to_obstacles\<close> and of \<^verbatim>\<open>handle_click\<close>: each
  loop stops at the first building (zone) that holds the point.
\<close>

fun hit_building :: "Building list \<Rightarrow> real \<Rightarrow> real \<Rightarrow> bool" where
  "hit_building [] px py = False"
| "hit_building (b # bs) px py =
     (if collidepoint (rect b) px py then True else hit_building bs px py)"

fun hit_zone :: "NoFlyZone list \<Rightarrow> real \<Rightarrow> real \<Rightarrow> bool" where
  "hit_zone [] px py = False"
| "hit_zone (z # zs) px py =
     (if contains_point z px py then True else hit_zone zs px py)"

text \<open>
  The flag \<^verbatim>\<open>in_obstacle\<close> of \<^verbatim>\<open>clip_path_to_obstacles\<close>: it starts false and
  either scan may set it.
\<close>

definition in_obstacle :: "Building list \<Rightarrow> NoFlyZone list \<Rightarrow> real \<Rightarrow> real \<Rightarrow> bool" where
  "in_obstacle bs zs px py = (hit_building bs px py \<or> hit_zone zs px py)"

text \<open>
  The loop over \<^verbatim>\<open>self.path\<close>, with the two lists it builds:
  \<^verbatim>\<open>self.clipped_path\<close> and \<^verbatim>\<open>safe_path\<close>.
\<close>

fun clip_loop ::
  "Building list \<Rightarrow> NoFlyZone list \<Rightarrow> point list \<Rightarrow> point list \<Rightarrow> point list
   \<Rightarrow> point list \<times> point list" where
  "clip_loop bs zs [] clipped safe = (clipped, safe)"
| "clip_loop bs zs (p # ps) clipped safe =
     (if \<not> in_obstacle bs zs (fst p) (snd p)
      then clip_loop bs zs ps clipped (safe @ [(fst p, snd p)])
      else if safe \<noteq> [] then clip_loop bs zs ps (clipped @ safe) []
      else clip_loop bs zs ps clipped safe)"

text \<open>\<^verbatim>\<open>Drone.clip_path_to_obstacles\<close>.\<close>

definition clip_path_to_obstacles ::
  "Building list \<Rightarrow> NoFlyZone list \<Rightarrow> Drone \<Rightarrow> Drone" where
  "clip_path_to_obstacles bs zs d =
     (if length (path d) < 2 then d
      else
        let r = clip_loop bs zs (path d) [] [];
            clipped = fst r;
            safe = snd r
        in d\<lparr>clipped_path := (if safe \<noteq> [] then clipped @ safe else clipped)\<rparr>)"

section \<open>The environment\<close>

text \<open>
  \<^verbatim>\<open>UrbanEnvironment.__init__\<close>. The buildings come from a random generator and
  are a parameter; the no-fly zones and the delivery points are fixed.
\<close>

definition generate_no_fly_zones :: "NoFlyZone list" where
  "generate_no_fly_zones =
     [\<lparr>center = (400, 300), radius = 80\<rparr>,
      \<lparr>center = (700, 500), radius = 60\<rparr>,
      \<lparr>center = (900, 200), radius = 70\<rparr>]"

definition generate_delivery_points :: "point list" where
  "generate_delivery_points =
     [(100, 100), (1100, 100), (1100, 700), (100, 700), (600, 400)]"

definition metrics_init :: NavigationMetrics where
  "metrics_init =
     \<lparr> paths_planned = 0, obstacles_avoided = 0, paths_clipped = 0,
       total_processing_time = 0, successful_deliveries = 0 \<rparr>"

definition env_init :: "Building list \<Rightarrow> UrbanEnvironment" where
  "env_init bs =
     \<lparr> buildings = bs,
       no_fly_zones = generate_no_fly_zones,
       delivery_points = generate_delivery_points,
       drone = drone_init (100, 100),
       metrics = metrics_init,
       current_delivery = 0,
       simulation_time = 0,
       is_paused = False \<rparr>"

text \<open>
  \<^verbatim>\<open>UrbanEnvironment.handle_click\<close>. Both exits hand back \<^verbatim>\<open>None\<close>: the
  bare \<^verbatim>\<open>return\<close> of a rejected click and the end of the function body.
\<close>

definition handle_click :: "real \<Rightarrow> real \<Rightarrow> UrbanEnvironment \<Rightarrow> pyval \<times> UrbanEnvironment" where
  "handle_click px py e =
     (if hit_building (buildings e) px py then (PyNone, e)
      else if hit_zone (no_fly_zones e) px py then (PyNone, e)
      else (PyNone,
            e\<lparr>drone := set_target px py (drone e),
              metrics := (metrics e)\<lparr>paths_planned := paths_planned (metrics e) + 1\<rparr>\<rparr>))"

text \<open>\<^verbatim>\<open>UrbanEnvironment.next_delivery\<close>.\<close>

definition next_delivery :: "UrbanEnvironment \<Rightarrow> error + UrbanEnvironment" where
  "next_delivery e =
     (let cd = (if current_delivery e < int (length (delivery_points e)) - 1
                then current_delivery e + 1 else 0)
      in case py_index (delivery_points e) cd of
           Inl err \<Rightarrow> Inl err
         | Inr target \<Rightarrow>
            let d = set_target (fst target) (snd target) (drone e);
                m = (metrics e)\<lparr>paths_planned := paths_planned (metrics e) + 1\<rparr>
            in if cd = 0
               then Inr (e\<lparr>current_delivery := cd,
                           drone := d\<lparr>carrying_package := True\<rparr>,
                           metrics := m\<lparr>successful_deliveries := successful_deliveries m + 1\<rparr>\<rparr>)
               else Inr (e\<lparr>current_delivery := cd, drone := d, metrics := m\<rparr>))"

text \<open>
  \<^verbatim>\<open>UrbanEnvironment.update\<close>. The parameter \<open>pt\<close> is the processing time the
  two \<^verbatim>\<open>pygame.time.get_ticks()\<close> calls measure.
\<close>

definition update_env :: "real \<Rightarrow> UrbanEnvironment \<Rightarrow> error + UrbanEnvironment" where
  "update_env pt e =
     (if is_paused e then Inr e
      else
        case update_drone (drone e) of
          Inl err \<Rightarrow> Inl err
        | Inr d1 \<Rightarrow>
           let d2 = clip_path_to_obstacles (buildings e) (no_fly_zones e) d1;
               m1 = (metrics e)\<lparr>total_processing_time :=
                                  total_processing_time (metrics e) + pt\<rparr>;
               m2 = (if length (clipped_path d2) > 0
                     then m1\<lparr>paths_clipped := paths_clipped m1 + 1\<rparr> else m1);
               m3 = (if length (path d2) \<noteq> length (clipped_path d2)
                     then m2\<lparr>obstacles_avoided := obstacles_avoided m2 + 1\<rparr> else m2);
               e1 = e\<lparr>simulation_time := simulation_time e + 1 / 60,
                      drone := d2, metrics := m3\<rparr>
           in if \<not> is_moving d2 \<and> carrying_package d2 then
                (case py_index (delivery_points e1) (current_delivery e1) of
                   Inl err \<Rightarrow> Inl err
                 | Inr current_target \<Rightarrow>
                    let distance = sqrt ((pos_x d2 - fst current_target)\<^sup>2
                                         + (pos_y d2 - snd current_target)\<^sup>2)
                    in if distance < 10 then next_delivery e1 else Inr e1)
              else Inr e1)"

text \<open>
  What the main loop does to the state: the key and mouse events, and the update at
  the end of each frame. \<open>K_r\<close> runs the constructor again, with the buildings the
  generator draws then.
\<close>

datatype op =
    K_SPACE
  | K_r "Building list"
  | K_c
  | K_n
  | Click real real
  | Tick real

fun apply_op :: "op \<Rightarrow> UrbanEnvironment \<Rightarrow> error + UrbanEnvironment" where
  "apply_op K_SPACE e = Inr (e\<lparr>is_paused := \<not> is_paused e\<rparr>)"
| "apply_op (K_r bs) e = Inr (env_init bs)"
| "apply_op K_c e = Inr (e\<lparr>drone := (drone e)\<lparr>path := [], clipped_path := []\<rparr>\<rparr>)"
| "apply_op K_n e = next_delivery e"
| "apply_op (Click px py) e = Inr (snd (handle_click px py e))"
| "apply_op (Tick pt) e = update_env pt e"

fun run_ops :: "op list \<Rightarrow> UrbanEnvironment \<Rightarrow> error + UrbanEnvironment" where
  "run_ops [] e = Inr e"
| "run_ops (a # as) e =
     (case apply_op a e of Inl err \<Rightarrow> Inl err | Inr e' \<Rightarrow> run_ops as e')"

text \<open>\<open>n\<close> consecutive calls of \<^verbatim>\<open>Drone.update\<close>.\<close>

fun drone_ticks :: "nat \<Rightarrow> Drone \<Rightarrow> error + Drone" where
  "drone_ticks 0 d = Inr d"
| "drone_ticks (Suc n) d =
     (case update_drone d of Inl err \<Rightarrow> Inl err | Inr d' \<Rightarrow> drone_ticks n d')"

section \<open>Notions used to state the properties\<close>

text \<open>A trail point that no building and no zone holds.\<close>

definition unblocked :: "Building list \<Rightarrow> NoFlyZone list \<Rightarrow> point \<Rightarrow> bool" where
  "unblocked bs zs p = (\<not> in_obstacle bs zs (fst p) (snd p))"

text \<open>The branch of \<^verbatim>\<open>Drone.update\<close> that moves the drone is taken.\<close>

definition advancing :: "Drone \<Rightarrow> bool" where
  "advancing d = (is_moving d \<and> target_distance d > speed d)"

text \<open>The drone moves in each of the next \<open>n\<close> calls of \<^verbatim>\<open>Drone.update\<close>.\<close>

fun moves_continuously :: "nat \<Rightarrow> Drone \<Rightarrow> bool" where
  "moves_continuously 0 d = True"
| "moves_continuously (Suc n) d =
     (advancing d \<and>
      (case update_drone d of Inl err \<Rightarrow> False | Inr d' \<Rightarrow> moves_continuously n d'))"

text \<open>
  What holds in every state the program reaches from its constructor: the speed and
  the delivery list are the constructor's, the index is in range, the trail is
  bounded, and the filtered trail is empty for a trail of fewer than two points and
  the filter of the trail otherwise.
\<close>

definition reach_inv :: "UrbanEnvironment \<Rightarrow> bool" where
  "reach_inv e =
     (speed (drone e) = 3 \<and>
      delivery_points e = generate_delivery_points \<and>
      0 \<le> current_delivery e \<and> current_delivery e < 5 \<and>
      length (path (drone e)) \<le> 100 \<and>
      clipped_path (drone e) =
        (if length (path (drone e)) < 2 then []
         else filter (unblocked (buildings e) (no_fly_zones e)) (path (drone e))))"

text \<open>
  The delivery scenario: two waypoints, no obstacles, the drone idle at waypoint 0
  with its package, index 0.
\<close>

definition scenario_env :: UrbanEnvironment where
  "scenario_env =
     \<lparr> buildings = [],
       no_fly_zones = [],
       delivery_points = [(0, 0), (100, 0)],
       drone = drone_init (0, 0),
       metrics = metrics_init,
       current_delivery = 0,
       simulation_time = 0,
       is_paused = False \<rparr>"

text \<open>
  Two states agree on what the delivery sequencer owns: the pause flag, the waypoint
  list, the index and the count of completed deliveries.
\<close>

definition same_mission :: "UrbanEnvironment \<Rightarrow> UrbanEnvironment \<Rightarrow> bool" where
  "same_mission e e' =
     (is_paused e' = is_paused e \<and> delivery_points e' = delivery_points e \<and>
      current_delivery e' = current_delivery e \<and>
      successful_deliveries (metrics e') = successful_deliveries (metrics e))"

text \<open>
  The spec's \<^verbatim>\<open>rectangleContains\<close> (section 4.1), in the spec's words: the point
  lies within \<open>[left, right] \<times> [top, bottom]\<close>, all four edges inside.
\<close>

definition spec_rectangleContains :: "Rect \<Rightarrow> real \<Rightarrow> real \<Rightarrow> bool" where
  "spec_rectangleContains r px py =
     (real_of_int (rect_left r) \<le> px \<and> px \<le> real_of_int (rect_right r) \<and>
      real_of_int (rect_top r) \<le> py \<and> py \<le> real_of_int (rect_bottom r))"

text \<open>
  The spec's \<^verbatim>\<open>circleContains\<close> (section 4.1): the Euclidean distance from the
  point to the centre is at most the radius.
\<close>

definition spec_circleContains :: "point \<Rightarrow> real \<Rightarrow> real \<Rightarrow> real \<Rightarrow> bool" where
  "spec_circleContains c r px py = (sqrt ((px - fst c)\<^sup>2 + (py - snd c)\<^sup>2) \<le> r)"

text \<open>
  The spec's \<^verbatim>\<open>isBlocked\<close> (section 4.2): some rectangle or some circle contains
  the point.
\<close>

definition spec_isBlocked :: "Building list \<Rightarrow> NoFlyZone list \<Rightarrow> real \<Rightarrow> real \<Rightarrow> bool" where
  "spec_isBlocked bs zs px py =
     (list_ex (\<lambda>b. spec_rectangleContains (rect b) px py) bs \<or>
      list_ex (\<lambda>z. spec_circleContains (center z) (radius z) px py) zs)"

text \<open>
  A point is clear of the obstacles when \<^verbatim>\<open>collidepoint\<close> fails for the rectangle
  of every building and \<^verbatim>\<open>contains_point\<close> fails for every zone.
\<close>

abbreviation clear_of :: "Building list \<Rightarrow> NoFlyZone list \<Rightarrow> point \<Rightarrow> bool" where
  "clear_of bs zs p \<equiv>
     (\<forall>b \<in> set bs. \<not> collidepoint (rect b) (fst p) (snd p)) \<and>
     (\<forall>z \<in> set zs. \<not> contains_point z (fst p) (snd p))"

section \<open>Geometry and click handling\<close>

lemma hit_building_iff:
  "hit_building bs px py \<longleftrightarrow> (\<exists>b \<in> set bs. collidepoint (rect b) px py)"
  by (induction bs) auto

lemma hit_zone_iff:
  "hit_zone zs px py \<longleftrightarrow> (\<exists>z \<in> set zs. contains_point z px py)"
  by (induction zs) auto

lemma trunc_int_lower:
  "a \<le> trunc_int v \<longleftrightarrow> (if 0 \<le> v then real_of_int a \<le> v else real_of_int a - 1 < v)"
  unfolding trunc_int_def by (auto simp: le_floor_iff less_ceiling_iff) (linarith+)?

lemma trunc_int_upper:
  "trunc_int v < b \<longleftrightarrow> (if 0 \<le> v then v < real_of_int b else v \<le> real_of_int b - 1)"
  unfolding trunc_int_def by (auto simp: floor_less_iff ceiling_less_iff) (linarith+)?

text \<open>
  C4, as the code has it. \<^verbatim>\<open>collidepoint\<close> holds exactly when the point lies in
  the half-open rectangle: for coordinates that are not negative,
  \<open>left \<le> x < right\<close> and \<open>top \<le> y < bottom\<close>, so the left and the top edge are
  inside and the right and the bottom edge are outside. A negative coordinate is cut
  towards zero first, which shifts its interval to \<open>left - 1 < x \<le> right - 1\<close>.
\<close>

theorem collidepoint_half_open:
  "collidepoint r px py \<longleftrightarrow>
     (if 0 \<le> px then real_of_int (rect_left r) \<le> px \<and> px < real_of_int (rect_right r)
      else real_of_int (rect_left r) - 1 < px \<and> px \<le> real_of_int (rect_right r) - 1) \<and>
     (if 0 \<le> py then real_of_int (rect_top r) \<le> py \<and> py < real_of_int (rect_bottom r)
      else real_of_int (rect_top r) - 1 < py \<and> py \<le> real_of_int (rect_bottom r) - 1)"
  unfolding collidepoint_def Let_def rect_left_def rect_right_def rect_top_def rect_bottom_def
    trunc_int_lower trunc_int_upper
  by auto

text \<open>
  C4 as stated fails on the right edge: the rectangle at (50, 50) of width and height
  80 has \<open>right = 130\<close>, and the point (130, 60) satisfies the four inclusive
  inequalities but is not inside for \<^verbatim>\<open>collidepoint\<close>.
\<close>

theorem collidepoint_right_edge_counterexample:
  "\<not> (collidepoint \<lparr>rx = 50, ry = 50, rw = 80, rh = 80\<rparr> 130 60 \<longleftrightarrow>
        (real_of_int (rect_left \<lparr>rx = 50, ry = 50, rw = 80, rh = 80\<rparr>) \<le> 130 \<and>
         130 \<le> real_of_int (rect_right \<lparr>rx = 50, ry = 50, rw = 80, rh = 80\<rparr>) \<and>
         real_of_int (rect_top \<lparr>rx = 50, ry = 50, rw = 80, rh = 80\<rparr>) \<le> 60 \<and>
         60 \<le> real_of_int (rect_bottom \<lparr>rx = 50, ry = 50, rw = 80, rh = 80\<rparr>)))"
  by (simp add: collidepoint_def trunc_int_def rect_left_def rect_right_def rect_top_def
      rect_bottom_def)

text \<open>
  C5, as the code has it. \<^verbatim>\<open>handle_click\<close> hands back \<^verbatim>\<open>None\<close> in both cases.
  When a building or a zone holds the point the whole state is unchanged; otherwise
  the target becomes the point, the drone is set moving and the count of planned
  paths grows by one.
\<close>

theorem handle_click_effect:
  "handle_click px py e =
     (PyNone,
      if (\<exists>b \<in> set (buildings e). collidepoint (rect b) px py) \<or>
         (\<exists>z \<in> set (no_fly_zones e). contains_point z px py)
      then e
      else e\<lparr>drone := (drone e)\<lparr>target_x := px, target_y := py, is_moving := True\<rparr>,
             metrics := (metrics e)\<lparr>paths_planned := paths_planned (metrics e) + 1\<rparr>\<rparr>)"
  by (simp add: handle_click_def hit_building_iff hit_zone_iff set_target_def)

text \<open>
  C5 as stated fails on the value handed back: the centre (400, 300) of the first
  no-fly zone is blocked, the state is unchanged, and the call hands back
  \<^verbatim>\<open>None\<close>, not \<^verbatim>\<open>False\<close>.
\<close>

theorem handle_click_returns_none_counterexample:
  "hit_zone (no_fly_zones (env_init [])) 400 300 \<and>
   snd (handle_click 400 300 (env_init [])) = env_init [] \<and>
   fst (handle_click 400 300 (env_init [])) \<noteq> PyBool False"
  by (simp add: handle_click_def env_init_def generate_no_fly_zones_def contains_point_def)

section \<open>The trail filter on short trails\<close>

text \<open>
  C7, as the code has it. On a trail of fewer than two points
  \<^verbatim>\<open>clip_path_to_obstacles\<close> returns at once: no membership test is made and
  the drone, its filtered trail included, is left as it was.
\<close>

theorem clip_short_path_unchanged:
  "length (path d) < 2 \<Longrightarrow> clip_path_to_obstacles bs zs d = d"
  by (simp add: clip_path_to_obstacles_def)

theorem clip_short_path_unchanged_witness:
  "length (path ((drone_init (100, 100))\<lparr>path := [(103, 100)]\<rparr>)) < 2 \<and>
   clip_path_to_obstacles [] generate_no_fly_zones
       ((drone_init (100, 100))\<lparr>path := [(103, 100)]\<rparr>)
     = (drone_init (100, 100))\<lparr>path := [(103, 100)]\<rparr>"
  using clip_short_path_unchanged
    [of "(drone_init (100, 100))\<lparr>path := [(103, 100)]\<rparr>" "[]" generate_no_fly_zones]
  by simp

text \<open>
  C7 as stated fails on a trail of one unblocked point: with no building and no zone
  the point (0, 0) is unblocked, and the filtered trail has length 0, not 1.
\<close>

theorem clip_single_point_counterexample:
  "\<not> in_obstacle [] [] 0 0 \<and>
   length (clipped_path (clip_path_to_obstacles [] []
             ((drone_init (0, 0))\<lparr>path := [(0, 0)]\<rparr>))) = 0"
  by (simp add: in_obstacle_def clip_path_to_obstacles_def drone_init_def)

section \<open>The motion update\<close>

text \<open>
  C8. With a speed that is not negative (the constructor's is 3),
  \<^verbatim>\<open>Drone.update\<close> never raises \<^verbatim>\<open>ZeroDivisionError\<close>: it always returns a
  drone. When the drone is moving and its distance to the target is zero, the
  arrival branch is taken: the position is the target, the drone is idle and the
  package flag is cleared.
\<close>

theorem update_never_divides_by_zero:
  assumes "0 \<le> speed d"
  shows "(\<exists>d'. update_drone d = Inr d') \<and>
         (is_moving d \<and> target_distance d = 0 \<longrightarrow>
            update_drone d = Inr (d\<lparr>pos_x := target_x d, pos_y := target_y d,
                                   is_moving := False, carrying_package := False\<rparr>))"
  using assms by (auto simp: update_drone_def py_truediv_def Let_def)

theorem update_never_divides_by_zero_witness:
  "0 \<le> speed (set_target 100 100 (drone_init (100, 100))) \<and>
   is_moving (set_target 100 100 (drone_init (100, 100))) \<and>
   target_distance (set_target 100 100 (drone_init (100, 100))) = 0 \<and>
   update_drone (set_target 100 100 (drone_init (100, 100)))
     = Inr ((drone_init (100, 100))\<lparr>carrying_package := False\<rparr>)"
  using update_never_divides_by_zero [of "set_target 100 100 (drone_init (100, 100))"]
  by (simp add: set_target_def drone_init_def target_distance_def)

section \<open>The first tick\<close>

text \<open>
  C10. From the constructor's state, whatever the buildings, the first update fires
  the auto-advance: the index becomes 1, the target is waypoint 1 at (1100, 100),
  the drone is moving and one path has been planned.
\<close>

theorem first_tick_self_starts:
  "update_env pt (env_init bs) =
     Inr ((env_init bs)\<lparr>simulation_time := 1 / 60, current_delivery := 1,
            drone := (drone_init (100, 100))\<lparr>target_x := 1100, target_y := 100,
                                              is_moving := True\<rparr>,
            metrics := metrics_init\<lparr>total_processing_time := pt, paths_planned := 1\<rparr>\<rparr>)"
  by (simp add: update_env_def env_init_def drone_init_def update_drone_def
      clip_path_to_obstacles_def metrics_init_def py_index_def generate_delivery_points_def
      next_delivery_def set_target_def Let_def)

section \<open>The trail filter: what every reachable state satisfies\<close>

lemma clip_loop_concat:
  "fst (clip_loop bs zs ps clipped safe) @ snd (clip_loop bs zs ps clipped safe)
     = clipped @ safe @ filter (unblocked bs zs) ps"
  by (induction ps arbitrary: clipped safe) (simp_all add: unblocked_def)

lemma clip_long_path:
  assumes len: "2 \<le> length (path d)"
  shows "clip_path_to_obstacles bs zs d = d\<lparr>clipped_path := filter (unblocked bs zs) (path d)\<rparr>"
proof -
  let ?r = "clip_loop bs zs (path d) [] []"
  have cat: "fst ?r @ snd ?r = filter (unblocked bs zs) (path d)"
    using clip_loop_concat [of bs zs "path d" "[]" "[]"] by simp
  have "(if snd ?r \<noteq> [] then fst ?r @ snd ?r else fst ?r) = fst ?r @ snd ?r"
    by simp
  with cat len show ?thesis
    by (simp add: clip_path_to_obstacles_def Let_def)
qed

lemma clip_keeps [simp]:
  "path (clip_path_to_obstacles bs zs d) = path d"
  "pos_x (clip_path_to_obstacles bs zs d) = pos_x d"
  "pos_y (clip_path_to_obstacles bs zs d) = pos_y d"
  "target_x (clip_path_to_obstacles bs zs d) = target_x d"
  "target_y (clip_path_to_obstacles bs zs d) = target_y d"
  "speed (clip_path_to_obstacles bs zs d) = speed d"
  "is_moving (clip_path_to_obstacles bs zs d) = is_moving d"
  "battery (clip_path_to_obstacles bs zs d) = battery d"
  "carrying_package (clip_path_to_obstacles bs zs d) = carrying_package d"
  by (simp_all add: clip_path_to_obstacles_def Let_def)

lemma length_append_path:
  "length ps \<le> 100 \<Longrightarrow> length (append_path p ps) = min 100 (length ps + 1)"
  by (auto simp: append_path_def Let_def)

lemma append_path_eq:
  "length ps \<le> 100 \<Longrightarrow>
     append_path p ps = (if length ps = 100 then tl ps else ps) @ [p]"
  by (cases ps) (auto simp: append_path_def Let_def)

lemma update_drone_total:
  "0 \<le> speed d \<Longrightarrow> \<exists>d'. update_drone d = Inr d'"
  by (auto simp: update_drone_def py_truediv_def Let_def)

lemma update_drone_path:
  assumes "update_drone d = Inr d'"
  shows "path d' = (if advancing d then append_path (pos_x d', pos_y d') (path d) else path d)"
  using assms
  by (auto simp: update_drone_def advancing_def py_truediv_def Let_def split: if_splits)

lemma update_drone_keeps:
  assumes "update_drone d = Inr d'"
  shows "speed d' = speed d" "clipped_path d' = clipped_path d"
        "target_x d' = target_x d" "target_y d' = target_y d"
  using assms
  by (auto simp: update_drone_def py_truediv_def Let_def split: if_splits)

text \<open>One unpaused update, split at the auto-advance check.\<close>

lemma update_env_unpaused:
  assumes np: "\<not> is_paused e" and d1: "update_drone (drone e) = Inr d1"
  shows "\<exists>e1. drone e1 = clip_path_to_obstacles (buildings e) (no_fly_zones e) d1 \<and>
          buildings e1 = buildings e \<and> no_fly_zones e1 = no_fly_zones e \<and>
          delivery_points e1 = delivery_points e \<and>
          current_delivery e1 = current_delivery e \<and>
          is_paused e1 = is_paused e \<and>
          successful_deliveries (metrics e1) = successful_deliveries (metrics e) \<and>
          paths_planned (metrics e1) = paths_planned (metrics e) \<and>
          update_env pt e =
            (if \<not> is_moving d1 \<and> carrying_package d1 then
               (case py_index (delivery_points e) (current_delivery e) of
                  Inl err \<Rightarrow> Inl err
                | Inr t \<Rightarrow>
                   if sqrt ((pos_x d1 - fst t)\<^sup>2 + (pos_y d1 - snd t)\<^sup>2) < 10
                   then next_delivery e1 else Inr e1)
             else Inr e1)"
proof -
  let ?d2 = "clip_path_to_obstacles (buildings e) (no_fly_zones e) d1"
  let ?m1 = "(metrics e)\<lparr>total_processing_time := total_processing_time (metrics e) + pt\<rparr>"
  let ?m2 = "if length (clipped_path ?d2) > 0
             then ?m1\<lparr>paths_clipped := paths_clipped ?m1 + 1\<rparr> else ?m1"
  let ?m3 = "if length (path ?d2) \<noteq> length (clipped_path ?d2)
             then ?m2\<lparr>obstacles_avoided := obstacles_avoided ?m2 + 1\<rparr> else ?m2"
  let ?e1 = "e\<lparr>simulation_time := simulation_time e + 1 / 60, drone := ?d2, metrics := ?m3\<rparr>"
  have a: "successful_deliveries ?m3 = successful_deliveries (metrics e)"
    by simp
  have b: "paths_planned ?m3 = paths_planned (metrics e)"
    by simp
  have c: "update_env pt e =
            (if \<not> is_moving d1 \<and> carrying_package d1 then
               (case py_index (delivery_points e) (current_delivery e) of
                  Inl err \<Rightarrow> Inl err
                | Inr t \<Rightarrow>
                   if sqrt ((pos_x d1 - fst t)\<^sup>2 + (pos_y d1 - snd t)\<^sup>2) < 10
                   then next_delivery ?e1 else Inr ?e1)
             else Inr ?e1)"
    using np d1 unfolding update_env_def Let_def by (simp cong: sum.case_cong if_cong)
  show ?thesis
    apply (rule exI [of _ ?e1])
    using a b c by simp
qed

lemma reach_inv_init: "reach_inv (env_init bs)"
  by (simp add: reach_inv_def env_init_def drone_init_def)

lemma py_index_delivery:
  "0 \<le> i \<Longrightarrow> i < 5 \<Longrightarrow> \<exists>t. py_index generate_delivery_points i = Inr t"
  by (simp add: py_index_def generate_delivery_points_def)

lemma next_delivery_inv:
  assumes "reach_inv e"
  shows "\<exists>e'. next_delivery e = Inr e' \<and> reach_inv e'"
proof -
  let ?cd = "if current_delivery e < int (length (delivery_points e)) - 1
             then current_delivery e + 1 else 0"
  have dp: "delivery_points e = generate_delivery_points"
    using assms by (simp add: reach_inv_def)
  have rng: "0 \<le> ?cd \<and> ?cd < 5"
    using assms by (simp add: reach_inv_def generate_delivery_points_def)
  then obtain t where t: "py_index (delivery_points e) ?cd = Inr t"
    using py_index_delivery [of ?cd] dp by auto
  show ?thesis
    using assms t rng
    by (auto simp: next_delivery_def Let_def reach_inv_def set_target_def)
qed

lemma tick_inv:
  assumes "reach_inv e"
  shows "\<exists>e'. update_env pt e = Inr e' \<and> reach_inv e'"
proof (cases "is_paused e")
  case True
  then show ?thesis using assms by (simp add: update_env_def)
next
  case False
  have sp: "speed (drone e) = 3" using assms by (simp add: reach_inv_def)
  then obtain d1 where d1: "update_drone (drone e) = Inr d1"
    using update_drone_total [of "drone e"] by auto
  let ?d2 = "clip_path_to_obstacles (buildings e) (no_fly_zones e) d1"
  have len1: "length (path d1) \<le> 100"
    using update_drone_path [OF d1] assms
    by (auto simp: reach_inv_def length_append_path)
  have short: "length (path d1) < 2 \<Longrightarrow> clipped_path d1 = []"
    using update_drone_path [OF d1] update_drone_keeps(2) [OF d1] assms
    by (auto simp: reach_inv_def length_append_path split: if_splits)
  have clip2: "clipped_path ?d2 =
        (if length (path d1) < 2 then []
         else filter (unblocked (buildings e) (no_fly_zones e)) (path d1))"
  proof (cases "length (path d1) < 2")
    case True
    then show ?thesis using short by (simp add: clip_path_to_obstacles_def)
  next
    case False
    then show ?thesis by (simp add: clip_long_path)
  qed
  from update_env_unpaused [OF False d1, of pt]
  obtain e1 where e1: "drone e1 = ?d2" "buildings e1 = buildings e"
      "no_fly_zones e1 = no_fly_zones e" "delivery_points e1 = delivery_points e"
      "current_delivery e1 = current_delivery e"
    and upd: "update_env pt e =
            (if \<not> is_moving d1 \<and> carrying_package d1 then
               (case py_index (delivery_points e) (current_delivery e) of
                  Inl err \<Rightarrow> Inl err
                | Inr t \<Rightarrow>
                   if sqrt ((pos_x d1 - fst t)\<^sup>2 + (pos_y d1 - snd t)\<^sup>2) < 10
                   then next_delivery e1 else Inr e1)
             else Inr e1)"
    by blast
  have inv1: "reach_inv e1"
    using assms len1 clip2 update_drone_keeps(1) [OF d1] e1
    by (simp add: reach_inv_def)
  obtain t where t: "py_index (delivery_points e) (current_delivery e) = Inr t"
    using assms py_index_delivery [of "current_delivery e"] by (auto simp: reach_inv_def)
  show ?thesis
    using upd t inv1 next_delivery_inv [OF inv1] by auto
qed

lemma apply_op_inv:
  assumes "reach_inv e"
  shows "\<exists>e'. apply_op a e = Inr e' \<and> reach_inv e'"
proof (cases a)
  case K_SPACE
  then show ?thesis using assms by (simp add: reach_inv_def)
next
  case (K_r bs)
  then show ?thesis by (simp add: reach_inv_init)
next
  case K_c
  then show ?thesis using assms by (simp add: reach_inv_def)
next
  case K_n
  then show ?thesis using next_delivery_inv [OF assms] by simp
next
  case (Click px py)
  then show ?thesis using assms
    by (simp add: reach_inv_def handle_click_def set_target_def)
next
  case (Tick pt)
  then show ?thesis using tick_inv [OF assms] by simp
qed

lemma run_ops_inv:
  "reach_inv e \<Longrightarrow> \<exists>e'. run_ops ops e = Inr e' \<and> reach_inv e'"
proof (induction ops arbitrary: e)
  case Nil
  then show ?case by simp
next
  case (Cons a ops)
  from apply_op_inv [OF Cons.prems, of a]
  obtain e1 where e1: "apply_op a e = Inr e1" "reach_inv e1" by auto
  from Cons.IH [OF e1(2)] e1(1) show ?case by simp
qed

section \<open>The trail bound and straight flights\<close>

lemma east_distance:
  assumes "pos_y d = target_y d" "0 \<le> target_x d - pos_x d"
  shows "target_distance d = target_x d - pos_x d"
  using assms by (simp add: target_distance_def)

lemma east_step:
  assumes "is_moving d" "pos_y d = target_y d" "0 < speed d"
    and "speed d < target_x d - pos_x d"
  shows "update_drone d =
           Inr (d\<lparr>pos_x := pos_x d + speed d, pos_y := pos_y d,
                  path := append_path (pos_x d + speed d, pos_y d) (path d),
                  battery := battery d - 1 / 100\<rparr>)"
    and "advancing d"
proof -
  have dist: "target_distance d = target_x d - pos_x d"
    using assms by (intro east_distance) auto
  show "advancing d" using assms dist by (simp add: advancing_def)
  show "update_drone d =
           Inr (d\<lparr>pos_x := pos_x d + speed d, pos_y := pos_y d,
                  path := append_path (pos_x d + speed d, pos_y d) (path d),
                  battery := battery d - 1 / 100\<rparr>)"
    using assms dist by (simp add: update_drone_def py_truediv_def Let_def)
qed

lemma east_arrival:
  assumes "is_moving d" "pos_y d = target_y d" "0 \<le> target_x d - pos_x d"
    and "target_x d - pos_x d \<le> speed d"
  shows "update_drone d =
           Inr (d\<lparr>pos_x := target_x d, pos_y := target_y d, is_moving := False,
                  carrying_package := False\<rparr>)"
  using assms east_distance [of d] by (simp add: update_drone_def Let_def)

lemma east_flight:
  assumes "is_moving d" "pos_y d = target_y d" "0 < speed d"
    and "real k * speed d < target_x d - pos_x d"
  shows "moves_continuously k d \<and>
         (\<exists>d'. drone_ticks k d = Inr d' \<and> pos_x d' = pos_x d + real k * speed d \<and>
            pos_y d' = pos_y d \<and> target_x d' = target_x d \<and> target_y d' = target_y d \<and>
            speed d' = speed d \<and> is_moving d' \<and>
            carrying_package d' = carrying_package d \<and>
            battery d' = battery d - real k / 100)"
  using assms
proof (induction k arbitrary: d)
  case 0
  then show ?case by simp
next
  case (Suc k)
  let ?d1 = "d\<lparr>pos_x := pos_x d + speed d, pos_y := pos_y d,
                  path := append_path (pos_x d + speed d, pos_y d) (path d),
                  battery := battery d - 1 / 100\<rparr>"
  have far: "speed d < target_x d - pos_x d"
  proof -
    have "speed d \<le> real (Suc k) * speed d"
      using Suc.prems(3) by (simp add: algebra_simps)
    then show ?thesis using Suc.prems(4) by linarith
  qed
  have st: "update_drone d = Inr ?d1" "advancing d"
    using east_step [OF Suc.prems(1,2,3) far] by auto
  have rest: "real k * speed ?d1 < target_x ?d1 - pos_x ?d1"
    using Suc.prems(4) by (simp add: algebra_simps)
  have ih: "moves_continuously k ?d1 \<and>
         (\<exists>d'. drone_ticks k ?d1 = Inr d' \<and> pos_x d' = pos_x ?d1 + real k * speed ?d1 \<and>
            pos_y d' = pos_y ?d1 \<and> target_x d' = target_x ?d1 \<and> target_y d' = target_y ?d1 \<and>
            speed d' = speed ?d1 \<and> is_moving d' \<and>
            carrying_package d' = carrying_package ?d1 \<and>
            battery d' = battery ?d1 - real k / 100)"
    using Suc.prems(1,2,3) rest by (intro Suc.IH) simp_all
  then obtain d' where d': "drone_ticks k ?d1 = Inr d'"
      "pos_x d' = pos_x ?d1 + real k * speed ?d1" "pos_y d' = pos_y ?d1"
      "target_x d' = target_x ?d1" "target_y d' = target_y ?d1" "speed d' = speed ?d1"
      "is_moving d'" "carrying_package d' = carrying_package ?d1"
      "battery d' = battery ?d1 - real k / 100"
    by blast
  have mc: "moves_continuously (Suc k) d"
    using st ih by simp
  have "drone_ticks (Suc k) d = Inr d'"
    using st(1) d'(1) by simp
  moreover have "pos_x d' = pos_x d + real (Suc k) * speed d"
    using d'(2) by (simp add: algebra_simps)
  moreover have "battery d' = battery d - real (Suc k) / 100"
    using d'(9) by (simp add: field_simps)
  ultimately show ?case
    using mc d'(3-8) by simp
qed

lemma continuous_path_length:
  assumes "moves_continuously n d" "length (path d) \<le> 100"
  shows "\<exists>d'. drone_ticks n d = Inr d' \<and> length (path d') = min 100 (length (path d) + n)"
  using assms
proof (induction n arbitrary: d)
  case 0
  then show ?case by simp
next
  case (Suc n)
  from Suc.prems(1) obtain d1 where d1: "advancing d" "update_drone d = Inr d1"
      "moves_continuously n d1"
    by (auto split: sum.splits)
  have len1: "length (path d1) = min 100 (length (path d) + 1)"
    using update_drone_path [OF d1(2)] d1(1) Suc.prems(2) by (simp add: length_append_path)
  then have "length (path d1) \<le> 100" by simp
  from Suc.IH [OF d1(3) this] obtain d' where
    d': "drone_ticks n d1 = Inr d'" "length (path d') = min 100 (length (path d1) + n)"
    by blast
  have "drone_ticks (Suc n) d = Inr d'" using d1(2) d'(1) by simp
  moreover have "length (path d') = min 100 (length (path d) + Suc n)"
    using d'(2) len1 by simp
  ultimately show ?case by blast
qed

lemma drone_ticks_snoc:
  "drone_ticks (Suc n) d =
     (case drone_ticks n d of Inl err \<Rightarrow> Inl err | Inr d' \<Rightarrow> update_drone d')"
proof (induction n arbitrary: d)
  case 0
  then show ?case by (simp split: sum.splits)
next
  case (Suc n)
  show ?case
  proof (cases "update_drone d")
    case (Inl err)
    then show ?thesis by simp
  next
    case (Inr d1)
    then show ?thesis using Suc.IH [of d1] by simp
  qed
qed

text \<open>
  C2. After any sequence of key presses, clicks and updates from the constructor's
  state the trail has at most 100 points. One call of \<^verbatim>\<open>Drone.update\<close> on a
  trail of at most 100 points leaves the trail alone when the drone does not move,
  and otherwise appends the new position, after dropping the oldest point when the
  trail was full. A drone that moves in each of 150 calls ends with a trail of
  exactly 100 points.
\<close>

theorem trail_bounded:
  "(\<exists>e. run_ops ops (env_init bs) = Inr e \<and> length (path (drone e)) \<le> 100) \<and>
   (length (path d) \<le> 100 \<and> update_drone d = Inr d' \<longrightarrow>
      length (path d') \<le> 100 \<and>
      path d' = (if advancing d
                 then (if length (path d) = 100 then tl (path d) else path d)
                        @ [(pos_x d', pos_y d')]
                 else path d)) \<and>
   (length (path d) \<le> 100 \<and> moves_continuously 150 d \<longrightarrow>
      (\<exists>d''. drone_ticks 150 d = Inr d'' \<and> length (path d'') = 100))"
proof -
  obtain e where e: "run_ops ops (env_init bs) = Inr e" "reach_inv e"
    using run_ops_inv [OF reach_inv_init, of ops bs] by auto
  then have first: "\<exists>e. run_ops ops (env_init bs) = Inr e \<and> length (path (drone e)) \<le> 100"
    by (auto simp: reach_inv_def)
  have second: "length (path d) \<le> 100 \<and> update_drone d = Inr d' \<longrightarrow>
      length (path d') \<le> 100 \<and>
      path d' = (if advancing d
                 then (if length (path d) = 100 then tl (path d) else path d)
                        @ [(pos_x d', pos_y d')]
                 else path d)"
  proof
    assume a: "length (path d) \<le> 100 \<and> update_drone d = Inr d'"
    then have p: "path d' =
        (if advancing d then append_path (pos_x d', pos_y d') (path d) else path d)"
      using update_drone_path by blast
    show "length (path d') \<le> 100 \<and>
      path d' = (if advancing d
                 then (if length (path d) = 100 then tl (path d) else path d)
                        @ [(pos_x d', pos_y d')]
                 else path d)"
      using a p by (simp add: length_append_path append_path_eq)
  qed
  have third: "length (path d) \<le> 100 \<and> moves_continuously 150 d \<longrightarrow>
      (\<exists>d''. drone_ticks 150 d = Inr d'' \<and> length (path d'') = 100)"
    using continuous_path_length [of 150 d] by auto
  from first second third show ?thesis by blast
qed

theorem trail_bounded_witness:
  "length (path (set_target 1100 100 (drone_init (100, 100)))) \<le> 100 \<and>
   moves_continuously 150 (set_target 1100 100 (drone_init (100, 100))) \<and>
   (\<exists>d''. drone_ticks 150 (set_target 1100 100 (drone_init (100, 100))) = Inr d'' \<and>
          length (path d'') = 100)"
proof -
  let ?D = "set_target 1100 100 (drone_init (100, 100))"
  have mc: "moves_continuously 150 ?D"
    using east_flight [of ?D 150] by (simp add: set_target_def drone_init_def)
  have len: "length (path ?D) \<le> 100"
    by (simp add: set_target_def drone_init_def)
  show ?thesis
    using trail_bounded [of "[]" "[]" ?D ?D] mc len by blast
qed

text \<open>
  C6. A drone at (0, 0) with speed 3 and target (30, 0): after \<open>k < 10\<close> calls of
  \<^verbatim>\<open>Drone.update\<close> it is still moving, at \<open>(3k, 0)\<close>; after exactly 10 calls its
  position is (30, 0), it is idle, and the package flag is cleared.
\<close>

theorem thirty_units_in_ten_ticks:
  assumes "pos_x d = 0" "pos_y d = 0" "speed d = 3"
  shows "(\<forall>k<10. \<exists>d'. drone_ticks k (set_target 30 0 d) = Inr d' \<and> is_moving d' \<and>
                    pos_x d' = 3 * real k \<and> pos_y d' = 0) \<and>
         (\<exists>d'. drone_ticks 10 (set_target 30 0 d) = Inr d' \<and> pos_x d' = 30 \<and> pos_y d' = 0 \<and>
                \<not> is_moving d' \<and> \<not> carrying_package d')"
proof -
  let ?D = "set_target 30 0 d"
  have fl: "\<exists>d'. drone_ticks k ?D = Inr d' \<and> pos_x d' = 3 * real k \<and> pos_y d' = 0 \<and>
               target_x d' = 30 \<and> target_y d' = 0 \<and> speed d' = 3 \<and> is_moving d'"
    if "k < 10" for k
  proof -
    have "real k * 3 < 30" using that by simp
    then show ?thesis
      using east_flight [of ?D k] assms by (auto simp: set_target_def algebra_simps)
  qed
  have first: "\<forall>k<10. \<exists>d'. drone_ticks k ?D = Inr d' \<and> is_moving d' \<and>
                    pos_x d' = 3 * real k \<and> pos_y d' = 0"
    using fl by blast
  from fl [of 9] obtain d9 where d9: "drone_ticks 9 ?D = Inr d9" "pos_x d9 = 27" "pos_y d9 = 0"
      "target_x d9 = 30" "target_y d9 = 0" "speed d9 = 3" "is_moving d9"
    by auto
  have arr: "update_drone d9 =
           Inr (d9\<lparr>pos_x := target_x d9, pos_y := target_y d9, is_moving := False,
                  carrying_package := False\<rparr>)"
    using d9 by (intro east_arrival) simp_all
  have "drone_ticks (Suc 9) ?D =
           Inr (d9\<lparr>pos_x := target_x d9, pos_y := target_y d9, is_moving := False,
                  carrying_package := False\<rparr>)"
    unfolding drone_ticks_snoc using d9(1) arr by simp
  then have second: "\<exists>d'. drone_ticks 10 ?D = Inr d' \<and> pos_x d' = 30 \<and> pos_y d' = 0 \<and>
                \<not> is_moving d' \<and> \<not> carrying_package d'"
    using d9 by simp
  from first second show ?thesis by blast
qed

theorem thirty_units_in_ten_ticks_witness:
  "pos_x (drone_init (0, 0)) = 0 \<and> pos_y (drone_init (0, 0)) = 0 \<and>
   speed (drone_init (0, 0)) = 3 \<and> carrying_package (drone_init (0, 0)) \<and>
   (\<exists>d'. drone_ticks 9 (set_target 30 0 (drone_init (0, 0))) = Inr d' \<and> is_moving d' \<and>
          pos_x d' = 27 \<and> pos_y d' = 0) \<and>
   (\<exists>d'. drone_ticks 10 (set_target 30 0 (drone_init (0, 0))) = Inr d' \<and> pos_x d' = 30 \<and>
          pos_y d' = 0 \<and> \<not> is_moving d' \<and> \<not> carrying_package d')"
proof -
  have a: "pos_x (drone_init (0, 0)) = 0" "pos_y (drone_init (0, 0)) = 0"
    "speed (drone_init (0, 0)) = 3" "carrying_package (drone_init (0, 0))"
    by (simp_all add: drone_init_def)
  from thirty_units_in_ten_ticks [OF a(1,2,3)]
  have b: "(\<forall>k<10. \<exists>d'. drone_ticks k (set_target 30 0 (drone_init (0, 0))) = Inr d' \<and>
                is_moving d' \<and> pos_x d' = 3 * real k \<and> pos_y d' = 0)"
    and c: "(\<exists>d'. drone_ticks 10 (set_target 30 0 (drone_init (0, 0))) = Inr d' \<and>
                pos_x d' = 30 \<and> pos_y d' = 0 \<and> \<not> is_moving d' \<and> \<not> carrying_package d')"
    by blast+
  have "(9::nat) < 10" by simp
  with b have "\<exists>d'. drone_ticks 9 (set_target 30 0 (drone_init (0, 0))) = Inr d' \<and>
                is_moving d' \<and> pos_x d' = 3 * real (9::nat) \<and> pos_y d' = 0"
    by blast
  then have "\<exists>d'. drone_ticks 9 (set_target 30 0 (drone_init (0, 0))) = Inr d' \<and>
                is_moving d' \<and> pos_x d' = 27 \<and> pos_y d' = 0"
    by simp
  with a c show ?thesis by blast
qed

section \<open>Deliveries\<close>

lemma same_mission_refl: "same_mission e e"
  by (simp add: same_mission_def)

lemma same_mission_trans: "same_mission a b \<Longrightarrow> same_mission b c \<Longrightarrow> same_mission a c"
  by (simp add: same_mission_def)

lemma contains_point_iff:
  assumes "0 \<le> radius z"
  shows "contains_point z px py \<longleftrightarrow>
           (px - fst (center z))\<^sup>2 + (py - snd (center z))\<^sup>2 \<le> (radius z)\<^sup>2"
proof -
  have "radius z = sqrt ((radius z)\<^sup>2)" using assms by simp
  then have "sqrt ((px - fst (center z))\<^sup>2 + (py - snd (center z))\<^sup>2) \<le> radius z \<longleftrightarrow>
        sqrt ((px - fst (center z))\<^sup>2 + (py - snd (center z))\<^sup>2) \<le> sqrt ((radius z)\<^sup>2)"
    by simp
  then show ?thesis
    unfolding contains_point_def Let_def by (simp only: real_sqrt_le_iff)
qed

lemma run_ops_append:
  "run_ops (xs @ ys) e =
     (case run_ops xs e of Inl err \<Rightarrow> Inl err | Inr e' \<Rightarrow> run_ops ys e')"
  by (induction xs arbitrary: e) (auto split: sum.splits)

text \<open>An unpaused update whose drone update leaves the drone moving or without package.\<close>

lemma update_env_no_advance:
  assumes np: "\<not> is_paused e" and d1: "update_drone (drone e) = Inr d1"
    and na: "is_moving d1 \<or> \<not> carrying_package d1"
  shows "\<exists>e'. update_env pt e = Inr e' \<and> same_mission e e' \<and>
           drone e' = clip_path_to_obstacles (buildings e) (no_fly_zones e) d1 \<and>
           buildings e' = buildings e \<and> no_fly_zones e' = no_fly_zones e"
proof -
  from update_env_unpaused [OF np d1, of pt] obtain e1 where
    e1: "drone e1 = clip_path_to_obstacles (buildings e) (no_fly_zones e) d1"
      "buildings e1 = buildings e" "no_fly_zones e1 = no_fly_zones e"
      "delivery_points e1 = delivery_points e" "current_delivery e1 = current_delivery e"
      "is_paused e1 = is_paused e"
      "successful_deliveries (metrics e1) = successful_deliveries (metrics e)"
    and upd: "update_env pt e =
            (if \<not> is_moving d1 \<and> carrying_package d1 then
               (case py_index (delivery_points e) (current_delivery e) of
                  Inl err \<Rightarrow> Inl err
                | Inr t \<Rightarrow>
                   if sqrt ((pos_x d1 - fst t)\<^sup>2 + (pos_y d1 - snd t)\<^sup>2) < 10
                   then next_delivery e1 else Inr e1)
             else Inr e1)"
    by blast
  have "update_env pt e = Inr e1" using upd na by auto
  then show ?thesis using e1 by (auto simp: same_mission_def)
qed

lemma env_east_flight:
  assumes "\<not> is_paused e" "is_moving (drone e)" "pos_y (drone e) = target_y (drone e)"
    and "0 < speed (drone e)"
    and "real k * speed (drone e) < target_x (drone e) - pos_x (drone e)"
  shows "\<exists>e'. run_ops (replicate k (Tick pt)) e = Inr e' \<and> same_mission e e' \<and>
           pos_x (drone e') = pos_x (drone e) + real k * speed (drone e) \<and>
           pos_y (drone e') = pos_y (drone e) \<and>
           target_x (drone e') = target_x (drone e) \<and>
           target_y (drone e') = target_y (drone e) \<and>
           speed (drone e') = speed (drone e) \<and> is_moving (drone e') \<and>
           carrying_package (drone e') = carrying_package (drone e)"
  using assms
proof (induction k arbitrary: e)
  case 0
  then show ?case by (simp add: same_mission_refl)
next
  case (Suc k)
  let ?d = "drone e"
  let ?d1 = "?d\<lparr>pos_x := pos_x ?d + speed ?d, pos_y := pos_y ?d,
                  path := append_path (pos_x ?d + speed ?d, pos_y ?d) (path ?d),
                  battery := battery ?d - 1 / 100\<rparr>"
  have far: "speed ?d < target_x ?d - pos_x ?d"
  proof -
    have "speed ?d \<le> real (Suc k) * speed ?d"
      using Suc.prems(4) by (simp add: algebra_simps)
    then show ?thesis using Suc.prems(5) by linarith
  qed
  have st: "update_drone ?d = Inr ?d1"
    using east_step(1) [OF Suc.prems(2,3,4) far] .
  have mv: "is_moving ?d1 \<or> \<not> carrying_package ?d1"
    using Suc.prems(2) by simp
  from update_env_no_advance [OF Suc.prems(1) st mv, of pt] obtain e1 where
    e1: "update_env pt e = Inr e1" "same_mission e e1"
      "drone e1 = clip_path_to_obstacles (buildings e) (no_fly_zones e) ?d1"
    by blast
  have p1: "\<not> is_paused e1" using e1(2) Suc.prems(1) by (simp add: same_mission_def)
  have f1: "pos_x (drone e1) = pos_x ?d + speed ?d" "pos_y (drone e1) = pos_y ?d"
    "target_x (drone e1) = target_x ?d" "target_y (drone e1) = target_y ?d"
    "speed (drone e1) = speed ?d" "is_moving (drone e1) = is_moving ?d"
    "carrying_package (drone e1) = carrying_package ?d"
    using e1(3) by simp_all
  have rest: "real k * speed (drone e1) < target_x (drone e1) - pos_x (drone e1)"
    using Suc.prems(5) f1 by (simp add: algebra_simps)
  have "\<exists>e'. run_ops (replicate k (Tick pt)) e1 = Inr e' \<and> same_mission e1 e' \<and>
           pos_x (drone e') = pos_x (drone e1) + real k * speed (drone e1) \<and>
           pos_y (drone e') = pos_y (drone e1) \<and>
           target_x (drone e') = target_x (drone e1) \<and>
           target_y (drone e') = target_y (drone e1) \<and>
           speed (drone e') = speed (drone e1) \<and> is_moving (drone e') \<and>
           carrying_package (drone e') = carrying_package (drone e1)"
    using p1 f1 Suc.prems(2,3,4) rest by (intro Suc.IH) simp_all
  then obtain e' where e': "run_ops (replicate k (Tick pt)) e1 = Inr e'" "same_mission e1 e'"
      "pos_x (drone e') = pos_x (drone e1) + real k * speed (drone e1)"
      "pos_y (drone e') = pos_y (drone e1)" "target_x (drone e') = target_x (drone e1)"
      "target_y (drone e') = target_y (drone e1)" "speed (drone e') = speed (drone e1)"
      "is_moving (drone e')" "carrying_package (drone e') = carrying_package (drone e1)"
    by blast
  have "run_ops (replicate (Suc k) (Tick pt)) e = Inr e'"
    using e1(1) e'(1) by simp
  moreover have "same_mission e e'"
    using e1(2) e'(2) by (rule same_mission_trans)
  moreover have "pos_x (drone e') = pos_x ?d + real (Suc k) * speed ?d"
    using e'(3) f1 by (simp add: algebra_simps)
  ultimately show ?case using e'(4-9) f1 by simp
qed

lemma env_arrival:
  assumes "\<not> is_paused e" "is_moving (drone e)" "pos_y (drone e) = target_y (drone e)"
    and "0 \<le> target_x (drone e) - pos_x (drone e)"
    and "target_x (drone e) - pos_x (drone e) \<le> speed (drone e)"
  shows "\<exists>e'. update_env pt e = Inr e' \<and> same_mission e e' \<and>
           pos_x (drone e') = target_x (drone e) \<and> pos_y (drone e') = target_y (drone e) \<and>
           \<not> is_moving (drone e') \<and> \<not> carrying_package (drone e') \<and>
           path (drone e') = path (drone e) \<and> battery (drone e') = battery (drone e)"
proof -
  let ?d = "drone e"
  let ?d1 = "?d\<lparr>pos_x := target_x ?d, pos_y := target_y ?d, is_moving := False,
                  carrying_package := False\<rparr>"
  have st: "update_drone ?d = Inr ?d1"
    using east_arrival [OF assms(2,3,4,5)] .
  have "is_moving ?d1 \<or> \<not> carrying_package ?d1" by simp
  from update_env_no_advance [OF assms(1) st this, of pt] obtain e1 where
    e1: "update_env pt e = Inr e1" "same_mission e e1"
      "drone e1 = clip_path_to_obstacles (buildings e) (no_fly_zones e) ?d1"
    by blast
  show ?thesis using e1 by auto
qed

lemma env_idle_empty:
  assumes "\<not> is_paused e" "\<not> is_moving (drone e)" "\<not> carrying_package (drone e)"
  shows "\<exists>e'. run_ops (replicate n (Tick pt)) e = Inr e' \<and> same_mission e e' \<and>
           pos_x (drone e') = pos_x (drone e) \<and> pos_y (drone e') = pos_y (drone e) \<and>
           \<not> is_moving (drone e') \<and> \<not> carrying_package (drone e')"
  using assms
proof (induction n arbitrary: e)
  case 0
  then show ?case by (simp add: same_mission_refl)
next
  case (Suc n)
  have st: "update_drone (drone e) = Inr (drone e)"
    using Suc.prems(2) by (simp add: update_drone_def)
  have "is_moving (drone e) \<or> \<not> carrying_package (drone e)"
    using Suc.prems(3) by simp
  from update_env_no_advance [OF Suc.prems(1) st this, of pt] obtain e1 where
    e1: "update_env pt e = Inr e1" "same_mission e e1"
      "drone e1 = clip_path_to_obstacles (buildings e) (no_fly_zones e) (drone e)"
    by blast
  have p1: "\<not> is_paused e1" "\<not> is_moving (drone e1)" "\<not> carrying_package (drone e1)"
    using e1 Suc.prems by (simp_all add: same_mission_def)
  from Suc.IH [OF p1] obtain e' where
    e': "run_ops (replicate n (Tick pt)) e1 = Inr e'" "same_mission e1 e'"
      "pos_x (drone e') = pos_x (drone e1)" "pos_y (drone e') = pos_y (drone e1)"
      "\<not> is_moving (drone e')" "\<not> carrying_package (drone e')"
    by blast
  have "run_ops (replicate (Suc n) (Tick pt)) e = Inr e'"
    using e1(1) e'(1) by simp
  moreover have "same_mission e e'"
    using e1(2) e'(2) by (rule same_mission_trans)
  ultimately show ?case using e'(3-6) e1(3) by simp
qed

lemma scenario_first_tick:
  "\<exists>e1. update_env pt scenario_env = Inr e1 \<and> \<not> is_paused e1 \<and>
      delivery_points e1 = [(0, 0), (100, 0)] \<and> current_delivery e1 = 1 \<and>
      successful_deliveries (metrics e1) = 0 \<and>
      pos_x (drone e1) = 0 \<and> pos_y (drone e1) = 0 \<and>
      target_x (drone e1) = 100 \<and> target_y (drone e1) = 0 \<and> speed (drone e1) = 3 \<and>
      is_moving (drone e1) \<and> carrying_package (drone e1)"
  by (simp add: update_env_def scenario_env_def drone_init_def update_drone_def
      clip_path_to_obstacles_def metrics_init_def py_index_def next_delivery_def
      set_target_def Let_def)

lemma flight_then_stall:
  assumes np: "\<not> is_paused e1" and mv: "is_moving (drone e1)"
    and lvl: "pos_y (drone e1) = target_y (drone e1)" and sp: "0 < speed (drone e1)"
    and far: "real k * speed (drone e1) < target_x (drone e1) - pos_x (drone e1)"
    and near: "target_x (drone e1) - pos_x (drone e1) \<le> real (Suc k) * speed (drone e1)"
  shows "\<exists>e. run_ops (replicate (Suc k + n) (Tick pt)) e1 = Inr e \<and> same_mission e1 e \<and>
           pos_x (drone e) = target_x (drone e1) \<and> pos_y (drone e) = target_y (drone e1) \<and>
           \<not> is_moving (drone e) \<and> \<not> carrying_package (drone e)"
proof -
  from env_east_flight [OF np mv lvl sp far, of pt] obtain ek where
    ek: "run_ops (replicate k (Tick pt)) e1 = Inr ek" "same_mission e1 ek"
      "pos_x (drone ek) = pos_x (drone e1) + real k * speed (drone e1)"
      "pos_y (drone ek) = pos_y (drone e1)" "target_x (drone ek) = target_x (drone e1)"
      "target_y (drone ek) = target_y (drone e1)" "speed (drone ek) = speed (drone e1)"
      "is_moving (drone ek)"
    by blast
  have pk: "\<not> is_paused ek" using ek(2) np by (simp add: same_mission_def)
  have lk: "pos_y (drone ek) = target_y (drone ek)" using ek lvl by simp
  have a: "0 \<le> target_x (drone ek) - pos_x (drone ek)" using ek far by simp
  have b: "target_x (drone ek) - pos_x (drone ek) \<le> speed (drone ek)"
    using ek near by (simp add: algebra_simps)
  from env_arrival [OF pk ek(8) lk a b, of pt] obtain ea where
    ea: "update_env pt ek = Inr ea" "same_mission ek ea"
      "pos_x (drone ea) = target_x (drone ek)" "pos_y (drone ea) = target_y (drone ek)"
      "\<not> is_moving (drone ea)" "\<not> carrying_package (drone ea)"
    by blast
  have pa: "\<not> is_paused ea" using ea(2) pk by (simp add: same_mission_def)
  from env_idle_empty [OF pa ea(5,6), of n pt] obtain e where
    e: "run_ops (replicate n (Tick pt)) ea = Inr e" "same_mission ea e"
      "pos_x (drone e) = pos_x (drone ea)" "pos_y (drone e) = pos_y (drone ea)"
      "\<not> is_moving (drone e)" "\<not> carrying_package (drone e)"
    by blast
  have split: "replicate (Suc k + n) (Tick pt) =
      replicate k (Tick pt) @ [Tick pt] @ replicate n (Tick pt)"
    by (simp add: replicate_add replicate_append_same)
  have run: "run_ops (replicate (Suc k + n) (Tick pt)) e1 = Inr e"
    unfolding split run_ops_append using ek(1) ea(1) e(1) by simp
  have sm: "same_mission e1 e"
    using ek(2) ea(2) e(2) same_mission_trans by blast
  show ?thesis using run sm e ea ek by simp
qed

lemma program_first_tick:
  "\<exists>e1. update_env pt (env_init bs) = Inr e1 \<and> \<not> is_paused e1 \<and>
      current_delivery e1 = 1 \<and> successful_deliveries (metrics e1) = 0 \<and>
      pos_x (drone e1) = 100 \<and> pos_y (drone e1) = 100 \<and>
      target_x (drone e1) = 1100 \<and> target_y (drone e1) = 100 \<and> speed (drone e1) = 3 \<and>
      is_moving (drone e1) \<and> carrying_package (drone e1)"
  by (simp add: update_env_def env_init_def drone_init_def update_drone_def
      clip_path_to_obstacles_def metrics_init_def py_index_def generate_delivery_points_def
      next_delivery_def set_target_def Let_def)

text \<open>
  C3, on the delivery scenario and on the program as it starts. In the scenario
  (waypoints (0, 0) and (100, 0), the drone idle at (0, 0) with its package, index
  0) the first update advances the index to 1; the drone reaches (100, 0) on update
  35, where the arrival clears the package flag, so the auto-advance check, which
  asks for the flag, does not fire then or on any later update: the index stays 1,
  no delivery is counted and the flag stays cleared. The program itself, started
  with any buildings, does the same at waypoint 1 = (1100, 100), reached on update
  335.
\<close>

theorem delivery_never_completes:
  "(\<exists>e. run_ops (replicate (35 + n) (Tick pt)) scenario_env = Inr e \<and>
       pos_x (drone e) = 100 \<and> pos_y (drone e) = 0 \<and>
       \<not> is_moving (drone e) \<and> \<not> carrying_package (drone e) \<and>
       current_delivery e = 1 \<and> successful_deliveries (metrics e) = 0) \<and>
   (\<exists>e. run_ops (replicate (335 + n) (Tick pt)) (env_init bs) = Inr e \<and>
       pos_x (drone e) = 1100 \<and> pos_y (drone e) = 100 \<and>
       \<not> is_moving (drone e) \<and> \<not> carrying_package (drone e) \<and>
       current_delivery e = 1 \<and> successful_deliveries (metrics e) = 0)"
proof -
  have scen: "\<exists>e. run_ops (replicate (35 + n) (Tick pt)) scenario_env = Inr e \<and>
       pos_x (drone e) = 100 \<and> pos_y (drone e) = 0 \<and>
       \<not> is_moving (drone e) \<and> \<not> carrying_package (drone e) \<and>
       current_delivery e = 1 \<and> successful_deliveries (metrics e) = 0"
  proof -
    from scenario_first_tick [of pt] obtain e1 where
      e1: "update_env pt scenario_env = Inr e1" "\<not> is_paused e1"
        "current_delivery e1 = 1" "successful_deliveries (metrics e1) = 0"
        "pos_x (drone e1) = 0" "pos_y (drone e1) = 0"
        "target_x (drone e1) = 100" "target_y (drone e1) = 0" "speed (drone e1) = 3"
        "is_moving (drone e1)"
      by blast
    have "\<exists>e. run_ops (replicate (Suc 33 + n) (Tick pt)) e1 = Inr e \<and> same_mission e1 e \<and>
           pos_x (drone e) = target_x (drone e1) \<and> pos_y (drone e) = target_y (drone e1) \<and>
           \<not> is_moving (drone e) \<and> \<not> carrying_package (drone e)"
      using e1 by (intro flight_then_stall) simp_all
    then obtain e where e: "run_ops (replicate (Suc 33 + n) (Tick pt)) e1 = Inr e"
        "same_mission e1 e" "pos_x (drone e) = 100" "pos_y (drone e) = 0"
        "\<not> is_moving (drone e)" "\<not> carrying_package (drone e)"
      using e1 by auto
    have "replicate (35 + n) (Tick pt) = Tick pt # replicate (Suc 33 + n) (Tick pt)"
      by (simp flip: replicate_Suc)
    then have "run_ops (replicate (35 + n) (Tick pt)) scenario_env = Inr e"
      using e1(1) e(1) by simp
    then show ?thesis using e e1 by (auto simp: same_mission_def)
  qed
  have prog: "\<exists>e. run_ops (replicate (335 + n) (Tick pt)) (env_init bs) = Inr e \<and>
       pos_x (drone e) = 1100 \<and> pos_y (drone e) = 100 \<and>
       \<not> is_moving (drone e) \<and> \<not> carrying_package (drone e) \<and>
       current_delivery e = 1 \<and> successful_deliveries (metrics e) = 0"
  proof -
    from program_first_tick [of pt bs] obtain e1 where
      e1: "update_env pt (env_init bs) = Inr e1" "\<not> is_paused e1"
        "current_delivery e1 = 1" "successful_deliveries (metrics e1) = 0"
        "pos_x (drone e1) = 100" "pos_y (drone e1) = 100"
        "target_x (drone e1) = 1100" "target_y (drone e1) = 100" "speed (drone e1) = 3"
        "is_moving (drone e1)"
      by blast
    have "\<exists>e. run_ops (replicate (Suc 333 + n) (Tick pt)) e1 = Inr e \<and> same_mission e1 e \<and>
           pos_x (drone e) = target_x (drone e1) \<and> pos_y (drone e) = target_y (drone e1) \<and>
           \<not> is_moving (drone e) \<and> \<not> carrying_package (drone e)"
      using e1 by (intro flight_then_stall) simp_all
    then obtain e where e: "run_ops (replicate (Suc 333 + n) (Tick pt)) e1 = Inr e"
        "same_mission e1 e" "pos_x (drone e) = 1100" "pos_y (drone e) = 100"
        "\<not> is_moving (drone e)" "\<not> carrying_package (drone e)"
      using e1 by auto
    have "replicate (335 + n) (Tick pt) = Tick pt # replicate (Suc 333 + n) (Tick pt)"
      by (simp flip: replicate_Suc)
    then have "run_ops (replicate (335 + n) (Tick pt)) (env_init bs) = Inr e"
      using e1(1) e(1) by simp
    then show ?thesis using e e1 by (auto simp: same_mission_def)
  qed
  from scen prog show ?thesis by blast
qed

lemma init_position_free: "\<not> in_obstacle [] generate_no_fly_zones 100 100"
  by (simp add: in_obstacle_def generate_no_fly_zones_def contains_point_iff)

text \<open>
  C9. When the drone's own position is in no building and no zone, a click on it
  sets the drone moving; the next update of the running simulation leaves the
  position, the trail and the battery as they were, makes the drone idle again and
  leaves the package flag cleared.
\<close>

theorem target_own_position:
  assumes free: "\<not> in_obstacle (buildings e) (no_fly_zones e) (pos_x (drone e)) (pos_y (drone e))"
    and sp: "0 \<le> speed (drone e)" and np: "\<not> is_paused e"
  shows "\<exists>e1. handle_click (pos_x (drone e)) (pos_y (drone e)) e = (PyNone, e1) \<and>
           is_moving (drone e1) \<and>
           (\<exists>e2. update_env pt e1 = Inr e2 \<and>
              pos_x (drone e2) = pos_x (drone e) \<and> pos_y (drone e2) = pos_y (drone e) \<and>
              \<not> is_moving (drone e2) \<and> path (drone e2) = path (drone e) \<and>
              battery (drone e2) = battery (drone e) \<and> \<not> carrying_package (drone e2))"
proof -
  let ?d = "drone e"
  let ?e1 = "e\<lparr>drone := set_target (pos_x ?d) (pos_y ?d) ?d,
               metrics := (metrics e)\<lparr>paths_planned := paths_planned (metrics e) + 1\<rparr>\<rparr>"
  have click: "handle_click (pos_x ?d) (pos_y ?d) e = (PyNone, ?e1)"
    using free by (simp add: handle_click_def in_obstacle_def)
  have mv: "is_moving (drone ?e1)" by (simp add: set_target_def)
  have "\<exists>e'. update_env pt ?e1 = Inr e' \<and> same_mission ?e1 e' \<and>
           pos_x (drone e') = target_x (drone ?e1) \<and> pos_y (drone e') = target_y (drone ?e1) \<and>
           \<not> is_moving (drone e') \<and> \<not> carrying_package (drone e') \<and>
           path (drone e') = path (drone ?e1) \<and> battery (drone e') = battery (drone ?e1)"
    using np sp by (intro env_arrival) (simp_all add: set_target_def)
  then have "\<exists>e2. update_env pt ?e1 = Inr e2 \<and>
              pos_x (drone e2) = pos_x ?d \<and> pos_y (drone e2) = pos_y ?d \<and>
              \<not> is_moving (drone e2) \<and> path (drone e2) = path ?d \<and>
              battery (drone e2) = battery ?d \<and> \<not> carrying_package (drone e2)"
    by (auto simp: set_target_def)
  with click mv show ?thesis by blast
qed

theorem target_own_position_witness:
  "\<not> in_obstacle (buildings (env_init [])) (no_fly_zones (env_init []))
       (pos_x (drone (env_init []))) (pos_y (drone (env_init []))) \<and>
   0 \<le> speed (drone (env_init [])) \<and> \<not> is_paused (env_init []) \<and>
   carrying_package (drone (env_init [])) \<and>
   (\<exists>e1. handle_click 100 100 (env_init []) = (PyNone, e1) \<and> is_moving (drone e1) \<and>
      (\<exists>e2. update_env 0 e1 = Inr e2 \<and> pos_x (drone e2) = 100 \<and> pos_y (drone e2) = 100 \<and>
         \<not> is_moving (drone e2) \<and> path (drone e2) = [] \<and> battery (drone e2) = 100 \<and>
         \<not> carrying_package (drone e2)))"
proof -
  have h: "\<not> in_obstacle (buildings (env_init [])) (no_fly_zones (env_init []))
       (pos_x (drone (env_init []))) (pos_y (drone (env_init [])))"
    "0 \<le> speed (drone (env_init []))" "\<not> is_paused (env_init [])"
    "carrying_package (drone (env_init []))"
    using init_position_free by (simp_all add: env_init_def drone_init_def)
  have v: "pos_x (drone (env_init [])) = 100" "pos_y (drone (env_init [])) = 100"
    "path (drone (env_init [])) = []" "battery (drone (env_init [])) = 100"
    by (simp_all add: env_init_def drone_init_def)
  from target_own_position [OF h(1,2,3), of 0] show ?thesis
    using h unfolding v by blast
qed

section \<open>The filtered trail and the obstacles\<close>

lemma unblocked_iff: "unblocked bs zs p \<longleftrightarrow> clear_of bs zs p"
  by (auto simp: unblocked_def in_obstacle_def hit_building_iff hit_zone_iff)

lemma filter_unblocked: "filter (unblocked bs zs) ps = filter (clear_of bs zs) ps"
  by (rule filter_cong) (simp_all add: unblocked_iff)

lemma env_east_trail:
  assumes "\<not> is_paused e" "is_moving (drone e)" "pos_y (drone e) = target_y (drone e)"
    and "0 < speed (drone e)"
    and "real k * speed (drone e) < target_x (drone e) - pos_x (drone e)"
    and "length (path (drone e)) + k \<le> 100"
  shows "\<exists>e'. run_ops (replicate k (Tick pt)) e = Inr e' \<and>
           buildings e' = buildings e \<and> no_fly_zones e' = no_fly_zones e \<and>
           path (drone e') =
             path (drone e) @
             map (\<lambda>i. (pos_x (drone e) + real (Suc i) * speed (drone e), pos_y (drone e)))
               [0..<k]"
  using assms
proof (induction k arbitrary: e)
  case 0
  then show ?case by simp
next
  case (Suc k)
  let ?d = "drone e"
  let ?d1 = "?d\<lparr>pos_x := pos_x ?d + speed ?d, pos_y := pos_y ?d,
                  path := append_path (pos_x ?d + speed ?d, pos_y ?d) (path ?d),
                  battery := battery ?d - 1 / 100\<rparr>"
  have far: "speed ?d < target_x ?d - pos_x ?d"
  proof -
    have "speed ?d \<le> real (Suc k) * speed ?d"
      using Suc.prems(4) by (simp add: algebra_simps)
    then show ?thesis using Suc.prems(5) by linarith
  qed
  have st: "update_drone ?d = Inr ?d1"
    using east_step(1) [OF Suc.prems(2,3,4) far] .
  have mv: "is_moving ?d1 \<or> \<not> carrying_package ?d1"
    using Suc.prems(2) by simp
  from update_env_no_advance [OF Suc.prems(1) st mv, of pt] obtain e1 where
    e1: "update_env pt e = Inr e1" "same_mission e e1"
      "drone e1 = clip_path_to_obstacles (buildings e) (no_fly_zones e) ?d1"
      "buildings e1 = buildings e" "no_fly_zones e1 = no_fly_zones e"
    by blast
  have p1: "\<not> is_paused e1" using e1(2) Suc.prems(1) by (simp add: same_mission_def)
  have room: "length (path ?d) < 100" using Suc.prems(6) by simp
  have f1: "pos_x (drone e1) = pos_x ?d + speed ?d" "pos_y (drone e1) = pos_y ?d"
    "target_x (drone e1) = target_x ?d" "target_y (drone e1) = target_y ?d"
    "speed (drone e1) = speed ?d" "is_moving (drone e1) = is_moving ?d"
    "path (drone e1) = path ?d @ [(pos_x ?d + speed ?d, pos_y ?d)]"
    using e1(3) room by (simp_all add: append_path_eq)
  have rest: "real k * speed (drone e1) < target_x (drone e1) - pos_x (drone e1)"
    using Suc.prems(5) f1 by (simp add: algebra_simps)
  have len: "length (path (drone e1)) + k \<le> 100"
    using Suc.prems(6) f1(7) by simp
  have "\<exists>e'. run_ops (replicate k (Tick pt)) e1 = Inr e' \<and>
           buildings e' = buildings e1 \<and> no_fly_zones e' = no_fly_zones e1 \<and>
           path (drone e') =
             path (drone e1) @
             map (\<lambda>i. (pos_x (drone e1) + real (Suc i) * speed (drone e1), pos_y (drone e1)))
               [0..<k]"
    using p1 f1 Suc.prems(2,3,4) rest len by (intro Suc.IH) simp_all
  then obtain e' where e': "run_ops (replicate k (Tick pt)) e1 = Inr e'"
      "buildings e' = buildings e1" "no_fly_zones e' = no_fly_zones e1"
      "path (drone e') =
             path (drone e1) @
             map (\<lambda>i. (pos_x (drone e1) + real (Suc i) * speed (drone e1), pos_y (drone e1)))
               [0..<k]"
    by blast
  have run: "run_ops (replicate (Suc k) (Tick pt)) e = Inr e'"
    using e1(1) e'(1) by simp
  have shift: "map (\<lambda>i. (pos_x ?d + real (Suc i) * speed ?d, pos_y ?d)) [0..<Suc k] =
      (pos_x ?d + speed ?d, pos_y ?d) #
      map (\<lambda>i. (pos_x ?d + speed ?d + real (Suc i) * speed ?d, pos_y ?d)) [0..<k]"
    unfolding map_upt_Suc by (simp add: algebra_simps)
  have "path (drone e') =
          path ?d @ map (\<lambda>i. (pos_x ?d + real (Suc i) * speed ?d, pos_y ?d)) [0..<Suc k]"
    unfolding shift using e'(4) f1 by simp
  with run e'(2,3) e1(4,5) show ?case by simp
qed

lemma program_first_tick_layout:
  "\<exists>e1. update_env pt (env_init bs) = Inr e1 \<and> \<not> is_paused e1 \<and>
      is_moving (drone e1) \<and> pos_x (drone e1) = 100 \<and> pos_y (drone e1) = 100 \<and>
      target_x (drone e1) = 1100 \<and> target_y (drone e1) = 100 \<and> speed (drone e1) = 3 \<and>
      path (drone e1) = [] \<and> buildings e1 = bs \<and> no_fly_zones e1 = generate_no_fly_zones"
  by (simp add: update_env_def env_init_def drone_init_def update_drone_def
      clip_path_to_obstacles_def metrics_init_def py_index_def generate_delivery_points_def
      next_delivery_def set_target_def Let_def)

lemma first_ten_steps:
  "map (\<lambda>i. (100 + real (Suc i) * 3, 100 :: real)) [0..<10] =
     [(103, 100), (106, 100), (109, 100), (112, 100), (115, 100),
      (118, 100), (121, 100), (124, 100), (127, 100), (130, 100)]"
proof -
  have "[0..<10] = [0, 1, 2, 3, 4, 5, 6, 7, 8, 9 :: nat]"
    by (simp add: upt_rec)
  then show ?thesis by simp
qed

lemma right_edge_trail:
  "filter (unblocked [\<lparr>rect = \<lparr>rx = 50, ry = 50, rw = 80, rh = 80\<rparr>,
                        color = (70, 70, 80), height = 5\<rparr>] generate_no_fly_zones)
     [(103, 100), (106, 100), (109, 100), (112, 100), (115, 100),
      (118, 100), (121, 100), (124, 100), (127, 100), (130, 100)]
   = [(130, 100)]"
  by (simp add: unblocked_def in_obstacle_def collidepoint_def trunc_int_def
      generate_no_fly_zones_def contains_point_iff Let_def)

lemma eleven_ticks_at_right_edge:
  "\<exists>e. run_ops (replicate 11 (Tick 0))
          (env_init [\<lparr>rect = \<lparr>rx = 50, ry = 50, rw = 80, rh = 80\<rparr>,
                      color = (70, 70, 80), height = 5\<rparr>]) = Inr e \<and>
       buildings e = [\<lparr>rect = \<lparr>rx = 50, ry = 50, rw = 80, rh = 80\<rparr>,
                      color = (70, 70, 80), height = 5\<rparr>] \<and>
       no_fly_zones e = generate_no_fly_zones \<and>
       clipped_path (drone e) = [(130, 100)]"
proof -
  let ?B = "\<lparr>rect = \<lparr>rx = 50, ry = 50, rw = 80, rh = 80\<rparr>, color = (70, 70, 80), height = 5\<rparr>"
  from program_first_tick_layout [of 0 "[?B]"] obtain e1 where
    e1: "update_env 0 (env_init [?B]) = Inr e1" "\<not> is_paused e1"
      "is_moving (drone e1)" "pos_x (drone e1) = 100" "pos_y (drone e1) = 100"
      "target_x (drone e1) = 1100" "target_y (drone e1) = 100" "speed (drone e1) = 3"
      "path (drone e1) = []" "buildings e1 = [?B]" "no_fly_zones e1 = generate_no_fly_zones"
    by blast
  have "\<exists>e'. run_ops (replicate 10 (Tick 0)) e1 = Inr e' \<and>
           buildings e' = buildings e1 \<and> no_fly_zones e' = no_fly_zones e1 \<and>
           path (drone e') =
             path (drone e1) @
             map (\<lambda>i. (pos_x (drone e1) + real (Suc i) * speed (drone e1), pos_y (drone e1)))
               [0..<10]"
    using e1 by (intro env_east_trail) simp_all
  then obtain e where e: "run_ops (replicate 10 (Tick 0)) e1 = Inr e"
      "buildings e = [?B]" "no_fly_zones e = generate_no_fly_zones"
      "path (drone e) = map (\<lambda>i. (100 + real (Suc i) * 3, 100)) [0..<10]"
    using e1 by auto
  have "replicate 11 (Tick 0) = Tick 0 # replicate 10 (Tick 0)"
    by (simp flip: replicate_Suc)
  then have run: "run_ops (replicate 11 (Tick 0)) (env_init [?B]) = Inr e"
    using e1(1) e(1) by simp
  obtain e' where "run_ops (replicate 11 (Tick 0)) (env_init [?B]) = Inr e'" "reach_inv e'"
    using run_ops_inv [OF reach_inv_init, of "replicate 11 (Tick 0)" "[?B]"] by auto
  with run have inv: "reach_inv e" by simp
  have pth: "path (drone e) =
     [(103, 100), (106, 100), (109, 100), (112, 100), (115, 100),
      (118, 100), (121, 100), (124, 100), (127, 100), (130, 100)]"
    using e(4) first_ten_steps by simp
  have "clipped_path (drone e) = [(130, 100)]"
    using inv e(2,3) right_edge_trail unfolding reach_inv_def pth by simp
  with run e(2,3) show ?thesis by blast
qed

lemma clip_two_points_zones:
  "clip_path_to_obstacles
      [\<lparr>rect = \<lparr>rx = 105, ry = 50, rw = 80, rh = 80\<rparr>, color = (70, 70, 80), height = 5\<rparr>]
      generate_no_fly_zones
      ((drone_init (100, 100))\<lparr>path := [(103, 100), (106, 100)]\<rparr>)
   = (drone_init (100, 100))\<lparr>path := [(103, 100), (106, 100)],
                               clipped_path := [(103, 100)]\<rparr>"
  by (simp add: clip_path_to_obstacles_def Let_def in_obstacle_def collidepoint_def
      trunc_int_def drone_init_def generate_no_fly_zones_def contains_point_iff)

text \<open>
  C1, as the code has it. After any sequence of key presses, clicks and updates from
  the constructor's state the program has not raised, and every point of the
  filtered trail is clear of the obstacles by the tests the code makes:
  \<^verbatim>\<open>collidepoint\<close> fails for every building (the half-open rectangle of C4, right
  and bottom edge outside) and \<^verbatim>\<open>contains_point\<close> fails for every zone. The
  filtered trail is a subsequence of the trail, in the trail's order, and no longer
  than the trail; it is empty for a trail of fewer than two points and otherwise
  exactly the trail's points that are clear of the obstacles. The same holds for
  the result of one run of \<^verbatim>\<open>clip_path_to_obstacles\<close> on any drone, with any
  buildings and zones, whose trail has at least two points.
\<close>

theorem filtered_trail_clear_of_obstacles:
  "(\<exists>e. run_ops ops (env_init bs) = Inr e \<and>
        (\<forall>p \<in> set (clipped_path (drone e)). clear_of (buildings e) (no_fly_zones e) p) \<and>
        subseq (clipped_path (drone e)) (path (drone e)) \<and>
        length (clipped_path (drone e)) \<le> length (path (drone e)) \<and>
        clipped_path (drone e) =
          (if length (path (drone e)) < 2 then []
           else filter (clear_of (buildings e) (no_fly_zones e)) (path (drone e)))) \<and>
   (2 \<le> length (path d) \<longrightarrow>
      (\<forall>p \<in> set (clipped_path (clip_path_to_obstacles bs zs d)). clear_of bs zs p) \<and>
      subseq (clipped_path (clip_path_to_obstacles bs zs d)) (path d) \<and>
      length (clipped_path (clip_path_to_obstacles bs zs d)) \<le> length (path d) \<and>
      clipped_path (clip_path_to_obstacles bs zs d) = filter (clear_of bs zs) (path d))"
proof -
  obtain e where e: "run_ops ops (env_init bs) = Inr e" "reach_inv e"
    using run_ops_inv [OF reach_inv_init, of ops bs] by auto
  have eq: "clipped_path (drone e) =
          (if length (path (drone e)) < 2 then []
           else filter (clear_of (buildings e) (no_fly_zones e)) (path (drone e)))"
    using e(2) by (simp add: reach_inv_def filter_unblocked)
  have "(\<forall>p \<in> set (clipped_path (drone e)). clear_of (buildings e) (no_fly_zones e) p) \<and>
        subseq (clipped_path (drone e)) (path (drone e)) \<and>
        length (clipped_path (drone e)) \<le> length (path (drone e))"
    unfolding eq by simp
  with e(1) eq have first: "\<exists>e. run_ops ops (env_init bs) = Inr e \<and>
        (\<forall>p \<in> set (clipped_path (drone e)). clear_of (buildings e) (no_fly_zones e) p) \<and>
        subseq (clipped_path (drone e)) (path (drone e)) \<and>
        length (clipped_path (drone e)) \<le> length (path (drone e)) \<and>
        clipped_path (drone e) =
          (if length (path (drone e)) < 2 then []
           else filter (clear_of (buildings e) (no_fly_zones e)) (path (drone e)))"
    by blast
  have second: "2 \<le> length (path d) \<longrightarrow>
      (\<forall>p \<in> set (clipped_path (clip_path_to_obstacles bs zs d)). clear_of bs zs p) \<and>
      subseq (clipped_path (clip_path_to_obstacles bs zs d)) (path d) \<and>
      length (clipped_path (clip_path_to_obstacles bs zs d)) \<le> length (path d) \<and>
      clipped_path (clip_path_to_obstacles bs zs d) = filter (clear_of bs zs) (path d)"
    by (simp add: clip_long_path filter_unblocked)
  from first second show ?thesis by blast
qed

theorem filtered_trail_clear_of_obstacles_witness:
  "2 \<le> length (path ((drone_init (100, 100))\<lparr>path := [(103, 100), (106, 100)]\<rparr>)) \<and>
   clipped_path (clip_path_to_obstacles
      [\<lparr>rect = \<lparr>rx = 105, ry = 50, rw = 80, rh = 80\<rparr>, color = (70, 70, 80), height = 5\<rparr>]
      generate_no_fly_zones
      ((drone_init (100, 100))\<lparr>path := [(103, 100), (106, 100)]\<rparr>)) = [(103, 100)] \<and>
   \<not> collidepoint \<lparr>rx = 105, ry = 50, rw = 80, rh = 80\<rparr> 103 100 \<and>
   collidepoint \<lparr>rx = 105, ry = 50, rw = 80, rh = 80\<rparr> 106 100 \<and>
   \<not> contains_point \<lparr>center = (400, 300), radius = 80\<rparr> 103 100 \<and>
   subseq [(103, 100)] [(103, 100), (106, 100 :: real)] \<and>
   (\<exists>e. run_ops [Tick 0, Tick 0, Tick 0]
          (env_init [\<lparr>rect = \<lparr>rx = 105, ry = 50, rw = 80, rh = 80\<rparr>,
                      color = (70, 70, 80), height = 5\<rparr>]) = Inr e \<and>
        subseq (clipped_path (drone e)) (path (drone e)) \<and>
        length (clipped_path (drone e)) \<le> length (path (drone e)))"
proof -
  let ?B = "\<lparr>rect = \<lparr>rx = 105, ry = 50, rw = 80, rh = 80\<rparr>, color = (70, 70, 80), height = 5\<rparr>"
  let ?D = "(drone_init (100, 100))\<lparr>path := [(103, 100), (106, 100)]\<rparr>"
  have len: "2 \<le> length (path ?D)" by simp
  have cl: "clipped_path (clip_path_to_obstacles [?B] generate_no_fly_zones ?D) = [(103, 100)]"
    by (simp add: clip_two_points_zones)
  have hit: "collidepoint \<lparr>rx = 105, ry = 50, rw = 80, rh = 80\<rparr> 106 100"
    by (simp add: collidepoint_def trunc_int_def)
  have zin: "\<lparr>center = (400, 300), radius = 80\<rparr> \<in> set generate_no_fly_zones"
    by (simp add: generate_no_fly_zones_def)
  from filtered_trail_clear_of_obstacles
    [of "[Tick 0, Tick 0, Tick 0]" "[?B]" ?D generate_no_fly_zones] len
  have run: "\<exists>e. run_ops [Tick 0, Tick 0, Tick 0] (env_init [?B]) = Inr e \<and>
        subseq (clipped_path (drone e)) (path (drone e)) \<and>
        length (clipped_path (drone e)) \<le> length (path (drone e))"
    and loc: "(\<forall>p \<in> set (clipped_path (clip_path_to_obstacles [?B] generate_no_fly_zones ?D)).
            clear_of [?B] generate_no_fly_zones p) \<and>
      subseq (clipped_path (clip_path_to_obstacles [?B] generate_no_fly_zones ?D)) (path ?D)"
    by blast+
  from loc have a: "clear_of [?B] generate_no_fly_zones (103, 100)"
    and b: "subseq [(103, 100)] [(103, 100), (106, 100 :: real)]"
    unfolding cl by simp_all
  from a have "\<not> collidepoint \<lparr>rx = 105, ry = 50, rw = 80, rh = 80\<rparr> 103 100" by simp
  moreover from a zin have "\<not> contains_point \<lparr>center = (400, 300), radius = 80\<rparr> 103 100"
    by auto
  ultimately show ?thesis using len cl hit b run by blast
qed

text \<open>
  C1 as stated fails for the spec's \<^verbatim>\<open>isBlocked\<close>, whose rectangles hold their
  edges. With the one building \<^verbatim>\<open>Rect(50, 50, 80, 80)\<close>, whose right edge is
  \<open>x = 130\<close>, eleven updates from the constructor's state do not raise: the first
  starts the flight to (1100, 100) and the next ten bring the drone to (130, 100).
  The filtered trail is then the single point (130, 100), which the spec's
  \<^verbatim>\<open>isBlocked\<close> counts as blocked.
\<close>

theorem filtered_trail_right_edge_counterexample:
  "\<not> isl (run_ops (replicate 11 (Tick 0))
            (env_init [\<lparr>rect = \<lparr>rx = 50, ry = 50, rw = 80, rh = 80\<rparr>,
                        color = (70, 70, 80), height = 5\<rparr>])) \<and>
   clipped_path (drone (projr (run_ops (replicate 11 (Tick 0))
            (env_init [\<lparr>rect = \<lparr>rx = 50, ry = 50, rw = 80, rh = 80\<rparr>,
                        color = (70, 70, 80), height = 5\<rparr>])))) = [(130, 100)] \<and>
   spec_isBlocked
     (buildings (projr (run_ops (replicate 11 (Tick 0))
            (env_init [\<lparr>rect = \<lparr>rx = 50, ry = 50, rw = 80, rh = 80\<rparr>,
                        color = (70, 70, 80), height = 5\<rparr>]))))
     (no_fly_zones (projr (run_ops (replicate 11 (Tick 0))
            (env_init [\<lparr>rect = \<lparr>rx = 50, ry = 50, rw = 80, rh = 80\<rparr>,
                        color = (70, 70, 80), height = 5\<rparr>]))))
     130 100"
proof -
  have "spec_isBlocked [\<lparr>rect = \<lparr>rx = 50, ry = 50, rw = 80, rh = 80\<rparr>,
                        color = (70, 70, 80), height = 5\<rparr>] generate_no_fly_zones 130 100"
    by (simp add: spec_isBlocked_def spec_rectangleContains_def rect_left_def rect_right_def
        rect_top_def rect_bottom_def)
  with eleven_ticks_at_right_edge show ?thesis by auto
qed

end
